theory Spec2Isabelle
  imports Complex_Main "HOL-Library.Word" "HOL-Library.Log_Nat"
begin

section \<open>Binary64 floating-point values\<close>

text \<open>
  The notebooks compute with NumPy's \<^verbatim>\<open>float64\<close> and Python's \<^verbatim>\<open>float\<close>, both IEEE 754
  binary64. A value is a finite number (the real it denotes), an infinity or a NaN.
  The two zeros are identified: they compare equal in Python and no operation below
  divides by a computed zero.
\<close>

datatype f64 = Fin real | PInf | NInf | NaN

definition pow2 :: "int \<Rightarrow> real" where
  "pow2 e = (if 0 \<le> e then 2 ^ nat e else 1 / 2 ^ nat (- e))"

text \<open>
  The binary exponent of a positive magnitude, clamped to the exponent range of
  binary64: the largest \<open>e\<close> in \<open>-1022..1023\<close> with \<open>2^e \<le> a\<close>, and \<open>-1022\<close> for the
  subnormal range. The search runs downwards from \<open>k - 1022\<close>.
\<close>

fun expo_down :: "nat \<Rightarrow> real \<Rightarrow> int" where
  "expo_down 0 a = - 1022"
| "expo_down (Suc k) a =
     (if pow2 (int (Suc k) - 1022) \<le> a then int (Suc k) - 1022 else expo_down k a)"

definition expo :: "real \<Rightarrow> int" where
  "expo a = expo_down 2045 \<bar>a\<bar>"

text \<open>Rounding to the nearest integer, ties to the even one.\<close>

definition round_half_even :: "real \<Rightarrow> int" where
  "round_half_even y =
     (let f = \<lfloor>y\<rfloor> in
      if y - of_int f < 1 / 2 then f
      else if 1 / 2 < y - of_int f then f + 1
      else if even f then f else f + 1)"

text \<open>
  Rounding a real to binary64: 53 significant bits, round to nearest, ties to even;
  a result of magnitude \<open>2^1024\<close> or more overflows to the infinity of its sign.
\<close>

definition f64_round :: "real \<Rightarrow> f64" where
  "f64_round a =
     (let q = pow2 (expo a - 52);
          r = of_int (round_half_even (a / q)) * q
      in if pow2 1024 \<le> \<bar>r\<bar> then (if 0 < a then PInf else NInf) else Fin r)"

fun fneg :: "f64 \<Rightarrow> f64" where
  "fneg (Fin a) = Fin (- a)"
| "fneg PInf = NInf"
| "fneg NInf = PInf"
| "fneg NaN = NaN"

fun fadd :: "f64 \<Rightarrow> f64 \<Rightarrow> f64" where
  "fadd NaN _ = NaN"
| "fadd _ NaN = NaN"
| "fadd (Fin a) (Fin b) = f64_round (a + b)"
| "fadd PInf NInf = NaN"
| "fadd NInf PInf = NaN"
| "fadd PInf _ = PInf"
| "fadd NInf _ = NInf"
| "fadd (Fin a) PInf = PInf"
| "fadd (Fin a) NInf = NInf"

definition fsub :: "f64 \<Rightarrow> f64 \<Rightarrow> f64" where
  "fsub a b = fadd a (fneg b)"

text \<open>The sign of a non-NaN value: \<open>1\<close>, \<open>0\<close> or \<open>-1\<close>.\<close>

fun fsign :: "f64 \<Rightarrow> int" where
  "fsign (Fin a) = (if 0 < a then 1 else if a < 0 then - 1 else 0)"
| "fsign PInf = 1"
| "fsign NInf = - 1"
| "fsign NaN = 0"

fun fmul :: "f64 \<Rightarrow> f64 \<Rightarrow> f64" where
  "fmul NaN _ = NaN"
| "fmul _ NaN = NaN"
| "fmul (Fin a) (Fin b) = f64_round (a * b)"
| "fmul u v =
     (if fsign u * fsign v = 0 then NaN
      else if 0 < fsign u * fsign v then PInf else NInf)"

text \<open>
  Division. A finite non-zero value divided by zero is the infinity of the dividend's
  sign (the zero divisor counted as positive), as NumPy's \<^verbatim>\<open>true_divide\<close> returns it.
\<close>

fun fdiv :: "f64 \<Rightarrow> f64 \<Rightarrow> f64" where
  "fdiv NaN _ = NaN"
| "fdiv _ NaN = NaN"
| "fdiv (Fin a) (Fin b) =
     (if b = 0 then (if a = 0 then NaN else if 0 < a then PInf else NInf)
      else f64_round (a / b))"
| "fdiv (Fin a) _ = Fin 0"
| "fdiv u (Fin b) = (if (0 \<le> b) = (u = PInf) then PInf else NInf)"
| "fdiv _ _ = NaN"

definition f64_of_int :: "int \<Rightarrow> f64" where
  "f64_of_int n = f64_round (of_int n)"


section \<open>The Maclaurin table\<close>

subsection \<open>Python and NumPy operations the function uses\<close>

text \<open>
  \<^verbatim>\<open>str.replace(old, new)\<close>: every non-overlapping occurrence of \<open>old\<close>, scanning from
  the left, is replaced by \<open>new\<close>; an empty \<open>old\<close> matches before every character and
  at the end.
\<close>

function py_replace :: "string \<Rightarrow> string \<Rightarrow> string \<Rightarrow> string" where
  "py_replace s old new =
     (if old = [] then new @ concat (map (\<lambda>c. c # new) s)
      else if s = [] then []
      else if take (length old) s = old then new @ py_replace (drop (length old) s) old new
      else hd s # py_replace (tl s) old new)"
  by pat_completeness auto
termination
  by (relation "measure (\<lambda>(s, old, new). length s)") auto

declare py_replace.simps [simp del]

text \<open>
  An attribute of the \<^verbatim>\<open>numpy\<close> module: a callable taking the evaluation point, or a
  value that cannot be called (\<^verbatim>\<open>np.pi\<close>, \<^verbatim>\<open>np.e\<close>). The module's namespace is a
  parameter \<open>np\<close> of the model, a map from attribute names; \<^verbatim>\<open>hasattr(np, n)\<close> is
  \<open>np n \<noteq> None\<close> and \<^verbatim>\<open>getattr(np, n)\<close> is \<open>the (np n)\<close>.
\<close>

datatype 'x attr = Callable "'x \<Rightarrow> f64" | Constant f64

type_synonym 'x module = "string \<rightharpoonup> 'x attr"

text \<open>A term function: its \<^verbatim>\<open>__name__\<close> and what calling it with \<open>r\<close> and \<open>x\<close> returns.\<close>

record 'x term_fn =
  fn_name :: string
  fn_call :: "nat \<Rightarrow> 'x \<Rightarrow> f64"

text \<open>
  The two exits of \<^verbatim>\<open>print_maclaurin_table\<close> that print a message and return are
  \<open>InvalidArgument\<close> ("Too many terms") and \<open>UnknownFunction\<close>; the others are the Python
  exceptions a statement of the function can raise.
\<close>

datatype error =
  InvalidArgument | UnknownFunction | TypeError | ValueError | OverflowError | IndexError

text \<open>
  What a call does besides computing, in order: the lines it prints and the calls it
  makes to the two functions it is given. A table line is recorded by the values it
  is formatted from.
\<close>

datatype 'x event =
    Printed string
  | Real_call string 'x
  | Term_call nat 'x
  | Table_head string 'x nat
  | Table_row int f64 f64 f64 nat
  | Table_foot f64 nat

text \<open>
  \<^verbatim>\<open>np.cumsum\<close> of a one-dimensional \<^verbatim>\<open>float64\<close> array: the running sums, accumulated
  from the left, the first being the first element itself.
\<close>

fun cumsum_from :: "f64 \<Rightarrow> f64 list \<Rightarrow> f64 list" where
  "cumsum_from acc [] = []"
| "cumsum_from acc (v # vs) = fadd acc v # cumsum_from (fadd acc v) vs"

fun cumsum :: "f64 list \<Rightarrow> f64 list" where
  "cumsum [] = []"
| "cumsum (v # vs) = v # cumsum_from v vs"

text \<open>\<^verbatim>\<open>int(v)\<close> of a float: truncation towards zero; it raises on NaN and on an infinity.\<close>

fun py_int :: "f64 \<Rightarrow> error + int" where
  "py_int (Fin a) = Inr (if 0 \<le> a then \<lfloor>a\<rfloor> else \<lceil>a\<rceil>)"
| "py_int NaN = Inl ValueError"
| "py_int _ = Inl OverflowError"

text \<open>\<^verbatim>\<open>len(str(i))\<close> of an int: its decimal digits, and the sign of a negative one.\<close>

definition str_len :: "int \<Rightarrow> nat" where
  "str_len i = (if i < 0 then 1 else 0) + (if i = 0 then 1 else floorlog 10 (nat \<bar>i\<bar>))"

subsection \<open>The function\<close>

text \<open>The arrays the function has computed when it starts printing the table.\<close>

record series =
  real_value :: f64
  terms :: "f64 list"
  result_to_r :: "f64 list"
  differences :: "f64 list"

text \<open>
  The loop \<^verbatim>\<open>for r in range(max_terms): terms[r] = term(r=r, x=x)\<close>, over the list of
  the indices still to do.
\<close>

fun term_loop ::
  "'x term_fn \<Rightarrow> 'x \<Rightarrow> nat list \<Rightarrow> f64 list \<times> 'x event list \<Rightarrow> f64 list \<times> 'x event list"
where
  "term_loop term x [] st = st"
| "term_loop term x (r # rs) st =
     term_loop term x rs ((fst st)[r := fn_call term r x], snd st @ [Term_call r x])"

text \<open>
  The first part of \<^verbatim>\<open>print_maclaurin_table(*, term, x, max_terms=15)\<close>, up to the
  computation of \<^verbatim>\<open>differences\<close>; the caller's \<open>max_terms\<close> is an argument here, the
  default included. The state threaded through is the list of events so far.
  \<^verbatim>\<open>np.zeros\<close> raises \<^verbatim>\<open>ValueError\<close> on a negative length; calling an attribute that is
  not callable raises \<^verbatim>\<open>TypeError\<close>. In this model the term function and the functions
  of the module are pure and return a float; callables with effects come further down.
\<close>

definition evaluate ::
  "'x module \<Rightarrow> 'x term_fn \<Rightarrow> 'x \<Rightarrow> int \<Rightarrow> 'x event list \<Rightarrow> (error + series) \<times> 'x event list"
where
  "evaluate np term x max_terms out =
     (if 100 \<le> max_terms then
        (Inl InvalidArgument,
         out @ [Printed ''Too many terms; for this demo use less than 100 terms!''])
      else
        let function_name = py_replace (fn_name term) ''_term'' [] in
        case np function_name of
          None \<Rightarrow>
            (Inl UnknownFunction,
             out @ [Printed (''Unknown function '' @ [CHR 0x27] @ function_name
                             @ [CHR 0x27] @ ''!'')])
        | Some (Constant c) \<Rightarrow> (Inl TypeError, out)
        | Some (Callable real_function) \<Rightarrow>
            let real_value = real_function x;
                out1 = out @ [Real_call function_name x]
            in if max_terms < 0 then (Inl ValueError, out1)
               else
                 let zeros = replicate (nat max_terms) (Fin 0);
                     st = term_loop term x [0..<nat max_terms] (zeros, out1);
                     terms = fst st;
                     result_to_r = cumsum terms;
                     differences = map (\<lambda>c. fsub c real_value) result_to_r
                 in (Inr \<lparr>real_value = real_value, terms = terms,
                          result_to_r = result_to_r, differences = differences\<rparr>,
                     snd st))"

text \<open>
  The second part: the column width, which reads \<^verbatim>\<open>int(real_value)\<close> and
  \<^verbatim>\<open>int(result_to_r[-1])\<close>, then the head of the table, one row for each \<open>r\<close> in
  \<^verbatim>\<open>range(max_terms)\<close> numbered from 1, and the foot with the real value.
\<close>

definition print_table ::
  "string \<Rightarrow> 'x \<Rightarrow> int \<Rightarrow> series \<Rightarrow> 'x event list \<Rightarrow> (error + unit) \<times> 'x event list"
where
  "print_table function_name x max_terms s out =
     (case py_int (real_value s) of
        Inl e \<Rightarrow> (Inl e, out)
      | Inr a \<Rightarrow>
          if result_to_r s = [] then (Inl IndexError, out)
          else
            case py_int (last (result_to_r s)) of
              Inl e \<Rightarrow> (Inl e, out)
            | Inr b \<Rightarrow>
                let widest_num_width = max (str_len a) (str_len b);
                    column_width = 16 + widest_num_width;
                    num_width = column_width - 2
                in (Inr (),
                    out @ [Table_head function_name x column_width]
                        @ map (\<lambda>r. Table_row (int r + 1) (terms s ! r) (result_to_r s ! r)
                                       (differences s ! r) num_width)
                              [0..<nat max_terms]
                        @ [Table_foot (real_value s) column_width]))"

definition print_maclaurin_table ::
  "'x module \<Rightarrow> 'x term_fn \<Rightarrow> 'x \<Rightarrow> int \<Rightarrow> 'x event list \<Rightarrow> (error + unit) \<times> 'x event list"
where
  "print_maclaurin_table np term x max_terms out =
     (case evaluate np term x max_terms out of
        (Inl e, out') \<Rightarrow> (Inl e, out')
      | (Inr s, out') \<Rightarrow>
          print_table (py_replace (fn_name term) ''_term'' []) x max_terms s out')"

text \<open>Counting what a call did, from the events it added.\<close>

fun is_term_call :: "'x event \<Rightarrow> bool" where
  "is_term_call (Term_call r x) = True"
| "is_term_call _ = False"

fun is_real_call :: "'x event \<Rightarrow> bool" where
  "is_real_call (Real_call n x) = True"
| "is_real_call _ = False"

fun is_table_row :: "'x event \<Rightarrow> bool" where
  "is_table_row (Table_row n t c d w) = True"
| "is_table_row _ = False"

subsection \<open>The function with callables that have effects\<close>

text \<open>
  Python callables can read and change global state. To state what the function does
  to such state, the same function is given once more with callables that take the
  globals and return them: a world is the events so far and the globals; the function
  passes the globals to each call it makes, in order, and touches them nowhere else.
\<close>

record ('x, 'g) world =
  trace :: "'x event list"
  globals :: 'g

datatype ('x, 'g) obj = Function "'x \<Rightarrow> 'g \<Rightarrow> f64 \<times> 'g" | Value f64

record ('x, 'g) term_obj =
  obj_name :: string
  obj_call :: "nat \<Rightarrow> 'x \<Rightarrow> 'g \<Rightarrow> f64 \<times> 'g"

fun term_loop_in ::
  "('x, 'g) term_obj \<Rightarrow> 'x \<Rightarrow> nat list \<Rightarrow> f64 list \<times> ('x, 'g) world
     \<Rightarrow> f64 list \<times> ('x, 'g) world"
where
  "term_loop_in term x [] st = st"
| "term_loop_in term x (r # rs) st =
     (case obj_call term r x (globals (snd st)) of
        (v, g) \<Rightarrow>
          term_loop_in term x rs
            ((fst st)[r := v],
             (snd st)\<lparr>trace := trace (snd st) @ [Term_call r x], globals := g\<rparr>))"

definition print_maclaurin_table_in ::
  "(string \<rightharpoonup> ('x, 'g) obj) \<Rightarrow> ('x, 'g) term_obj \<Rightarrow> 'x \<Rightarrow> int \<Rightarrow> ('x, 'g) world
     \<Rightarrow> (error + unit) \<times> ('x, 'g) world"
where
  "print_maclaurin_table_in np term x max_terms w =
     (if 100 \<le> max_terms then
        (Inl InvalidArgument,
         w\<lparr>trace := trace w
              @ [Printed ''Too many terms; for this demo use less than 100 terms!'']\<rparr>)
      else
        let function_name = py_replace (obj_name term) ''_term'' [] in
        case np function_name of
          None \<Rightarrow>
            (Inl UnknownFunction,
             w\<lparr>trace := trace w
                  @ [Printed (''Unknown function '' @ [CHR 0x27] @ function_name
                              @ [CHR 0x27] @ ''!'')]\<rparr>)
        | Some (Value c) \<Rightarrow> (Inl TypeError, w)
        | Some (Function real_function) \<Rightarrow>
            (case real_function x (globals w) of
               (v, g) \<Rightarrow>
                 let real_value = v;
                     w1 = w\<lparr>trace := trace w @ [Real_call function_name x], globals := g\<rparr>
                 in if max_terms < 0 then (Inl ValueError, w1)
                    else
                      let zeros = replicate (nat max_terms) (Fin 0);
                          st = term_loop_in term x [0..<nat max_terms] (zeros, w1);
                          terms = fst st;
                          w2 = snd st;
                          result_to_r = cumsum terms;
                          differences = map (\<lambda>c. fsub c real_value) result_to_r
                      in case print_table function_name x max_terms
                                \<lparr>real_value = real_value, terms = terms,
                                 result_to_r = result_to_r, differences = differences\<rparr>
                                (trace w2) of
                           (res, tr) \<Rightarrow> (res, w2\<lparr>trace := tr\<rparr>)))"

text \<open>
  A pure callable neither reads nor changes the globals: it is a function of its
  arguments alone. These are the term functions and module functions of the first
  model, seen as callables of the second.
\<close>

definition pure_term :: "'x term_fn \<Rightarrow> ('x, 'g) term_obj" where
  "pure_term term = \<lparr>obj_name = fn_name term, obj_call = (\<lambda>r x g. (fn_call term r x, g))\<rparr>"

definition pure_module :: "'x module \<Rightarrow> (string \<rightharpoonup> ('x, 'g) obj)" where
  "pure_module np n =
     (case np n of
        None \<Rightarrow> None
      | Some (Callable f) \<Rightarrow> Some (Function (\<lambda>x g. (f x, g)))
      | Some (Constant c) \<Rightarrow> Some (Value c))"

subsection \<open>The exponential series\<close>

text \<open>
  The evaluation point of the notebook's call is the Python int \<open>1\<close>. NumPy (1.x, which
  \<^verbatim>\<open>np.math\<close> requires, with the 64-bit default integer) takes a Python int within
  the range of \<^verbatim>\<open>int64\<close> as an \<^verbatim>\<open>int64\<close> value; such an \<open>x\<close> is a \<^typ>\<open>64 word\<close> here, read
  by \<^const>\<open>sint\<close>. Python ints outside that range, and float evaluation points, are not
  values of this type.

  \<^verbatim>\<open>np.power(x, r)\<close> on two such ints is computed in \<^verbatim>\<open>int64\<close> and wraps around.
\<close>

definition np_power :: "64 word \<Rightarrow> nat \<Rightarrow> 64 word" where
  "np_power x r = x ^ r"

text \<open>
  \<^verbatim>\<open>exp_term(r, x)\<close>. The factorial is a Python int. While it fits \<^verbatim>\<open>int64\<close> (up to
  \<open>r = 20\<close>) both operands are converted to \<^verbatim>\<open>float64\<close> and divided there; beyond,
  NumPy falls back to Python's division of the two ints, which rounds the exact
  quotient once.
\<close>

definition exp_term :: "nat \<Rightarrow> 64 word \<Rightarrow> f64" where
  "exp_term r x =
     (if (fact r :: int) < 2 ^ 63
      then fdiv (f64_of_int (sint (np_power x r))) (f64_of_int (fact r))
      else f64_round (of_int (sint (np_power x r)) / of_int (fact r)))"

definition exp_term_fn :: "64 word term_fn" where
  "exp_term_fn = \<lparr>fn_name = ''exp_term'', fn_call = exp_term\<rparr>"

text \<open>
  \<^verbatim>\<open>np.exp\<close> converts an \<^verbatim>\<open>int64\<close> argument to \<^verbatim>\<open>float64\<close> and returns a \<^verbatim>\<open>float64\<close>.
  Its value is taken here as the correctly rounded exponential. That is an
  idealisation: NumPy may return a neighbouring float at some arguments. At the three
  arguments the statements below use it is what NumPy returns: \<^verbatim>\<open>np.exp(0)\<close> is \<open>1.0\<close>,
  \<^verbatim>\<open>np.exp(1)\<close> is \<open>2.718281828459045\<close>, the float nearest to \<open>e\<close>, and
  \<^verbatim>\<open>np.exp(1024)\<close> overflows to infinity.

  The module is represented by the two attributes that the statements below look
  up; every other name is absent from this map.
\<close>

fun fexp :: "f64 \<Rightarrow> f64" where
  "fexp (Fin a) = f64_round (exp a)"
| "fexp PInf = PInf"
| "fexp NInf = Fin 0"
| "fexp NaN = NaN"

definition numpy_mod :: "64 word module" where
  "numpy_mod =
     [''exp'' \<mapsto> Callable (\<lambda>x. fexp (f64_of_int (sint x))),
      ''pi'' \<mapsto> Constant (f64_round pi)]"


section \<open>The Lotka-Volterra equations\<close>

text \<open>
  \<^verbatim>\<open>population_derivatives(populations, t, beta)\<close> on a list of floats; reading an
  index the list does not have raises \<^verbatim>\<open>IndexError\<close>. The int \<open>1\<close> in \<^verbatim>\<open>1 - y\<close> becomes
  the float \<open>1.0\<close>.
\<close>

definition population_derivatives :: "f64 list \<Rightarrow> 't \<Rightarrow> f64 \<Rightarrow> error + f64 list" where
  "population_derivatives populations t beta =
     (if length populations < 1 then Inl IndexError
      else
        let y = populations ! 0 in
        if length populations < 2 then Inl IndexError
        else
          let z = populations ! 1;
              y_prime = fmul (fsub z beta) y;
              z_prime = fmul (fsub (Fin 1) y) z
          in Inr [y_prime, z_prime])"


text \<open>
  Agreement of a computed value with a decimal figure: the value is finite and within
  \<open>tol\<close> of \<open>c\<close>.
\<close>

definition near :: "f64 \<Rightarrow> real \<Rightarrow> real \<Rightarrow> bool" where
  "near v c tol = (case v of Fin a \<Rightarrow> \<bar>a - c\<bar> \<le> tol | _ \<Rightarrow> False)"


section \<open>Properties of the floating-point operations\<close>

lemma pow2_powi: "pow2 e = 2 powi e"
  by (simp add: pow2_def power_int_def inverse_eq_divide power_one_over)

lemma pow2_mono: "e \<le> e' \<Longrightarrow> pow2 e \<le> pow2 e'"
  by (simp add: pow2_powi power_int_increasing)

lemma pow2_pos: "0 < pow2 e"
  by (simp add: pow2_powi)

lemma expo_down_eq:
  "pow2 e \<le> a \<Longrightarrow> a < pow2 (e + 1) \<Longrightarrow> - 1022 \<le> e \<Longrightarrow> e \<le> int k - 1022 \<Longrightarrow> expo_down k a = e"
proof (induction k)
  case 0
  then show ?case by simp
next
  case (Suc k)
  show ?case
  proof (cases "e = int (Suc k) - 1022")
    case True
    with Suc.prems show ?thesis by simp
  next
    case False
    with Suc.prems have le: "e + 1 \<le> int (Suc k) - 1022" by simp
    have "a < pow2 (int (Suc k) - 1022)"
      using Suc.prems(2) pow2_mono [OF le] by simp
    moreover have "e \<le> int k - 1022" using le by simp
    ultimately show ?thesis using Suc by simp
  qed
qed

lemma expo_eq:
  "pow2 e \<le> \<bar>a\<bar> \<Longrightarrow> \<bar>a\<bar> < pow2 (e + 1) \<Longrightarrow> - 1022 \<le> e \<Longrightarrow> e \<le> 1023 \<Longrightarrow> expo a = e"
  unfolding expo_def by (rule expo_down_eq) simp_all

lemma expo_down_top:
  "pow2 (int (Suc k) - 1022) \<le> a \<Longrightarrow> expo_down (Suc k) a = int (Suc k) - 1022"
  by simp

lemma expo_down_large: "pow2 1023 \<le> a \<Longrightarrow> expo_down 2045 a = 1023"
  using expo_down_top [of 2044 a] by simp

lemma f64_round_0: "f64_round 0 = Fin 0"
  using pow2_pos [of 1024] by (simp add: f64_round_def round_half_even_def Let_def not_le)

lemma round_half_even_eq:
  assumes "of_int m - 1 / 2 < y" and "y < of_int m + 1 / 2"
  shows "round_half_even y = m"
proof -
  have "\<lfloor>y\<rfloor> = m \<or> \<lfloor>y\<rfloor> = m - 1" using assms by linarith
  then show ?thesis
  proof
    assume "\<lfloor>y\<rfloor> = m"
    then show ?thesis using assms by (simp add: round_half_even_def Let_def)
  next
    assume f: "\<lfloor>y\<rfloor> = m - 1"
    then have "y < of_int m" by linarith
    then show ?thesis using assms f by (simp add: round_half_even_def Let_def)
  qed
qed

lemma f64_round_fin:
  assumes "pow2 e \<le> \<bar>a\<bar>" and "\<bar>a\<bar> < pow2 (e + 1)" and "- 1022 \<le> e" and "e \<le> 1023"
    and "round_half_even (a / pow2 (e - 52)) = m"
    and "\<bar>of_int m * pow2 (e - 52)\<bar> < pow2 1024"
  shows "f64_round a = Fin (of_int m * pow2 (e - 52))"
proof -
  have "expo a = e" using assms(1-4) by (rule expo_eq)
  then show ?thesis using assms(5,6) by (simp add: f64_round_def Let_def not_le)
qed

lemma exp1_bounds:
  "6121026514868073 / 2251799813685248 - 1 / 4503599627370496 < exp (1::real)"
  "exp (1::real) < 6121026514868073 / 2251799813685248 + 1 / 4503599627370496"
proof -
  obtain t :: real where t: "\<bar>t\<bar> \<le> \<bar>1\<bar>"
    and e: "exp 1 = (\<Sum>m<20. 1 ^ m / fact m) + exp t / fact 20 * 1 ^ 20"
    using Maclaurin_exp_le [of 1 20] by blast
  define d where "d = exp t / 2432902008176640000"
  have "exp t \<le> exp 1" using t by simp
  then have "exp t \<le> 3" using exp_le by linarith
  then have up: "d \<le> 3 / 2432902008176640000" unfolding d_def by simp
  have lo: "0 < d" unfolding d_def by simp
  have s: "(\<Sum>m<20. 1 ^ m / fact m :: real) = 82666416490601 / 30411275102208"
    by (simp add: eval_nat_numeral lessThan_Suc fact_reduce)
  have f: "(fact 20 :: real) = 2432902008176640000"
    by (simp add: eval_nat_numeral)
  have e': "exp 1 = 82666416490601 / 30411275102208 + d"
    using e s f by (simp add: d_def)
  show "6121026514868073 / 2251799813685248 - 1 / 4503599627370496 < exp (1::real)"
    using lo unfolding e' by linarith
  show "exp (1::real) < 6121026514868073 / 2251799813685248 + 1 / 4503599627370496"
    using up unfolding e' by linarith
qed

lemma fexp_1: "fexp (Fin 1) = Fin (6121026514868073 / 2251799813685248)"
proof -
  have "round_half_even (exp 1 / pow2 (1 - 52)) = 6121026514868073"
    using exp1_bounds by (intro round_half_even_eq) (simp_all add: pow2_def field_simps)
  moreover have "pow2 1 \<le> \<bar>exp (1::real)\<bar>" "\<bar>exp (1::real)\<bar> < pow2 (1 + 1)"
    using exp1_bounds by (simp_all add: pow2_def)
  ultimately have "f64_round (exp 1) = Fin (of_int 6121026514868073 * pow2 (1 - 52))"
    by (intro f64_round_fin) (simp_all add: pow2_def)
  then show ?thesis by (simp add: pow2_def)
qed

lemma f64_round_at:
  assumes "pow2 e \<le> \<bar>a\<bar>" and "\<bar>a\<bar> < pow2 (e + 1)" and "- 1022 \<le> e" and "e \<le> 1023"
    and "\<bar>of_int (round_half_even (a / pow2 (e - 52))) * pow2 (e - 52)\<bar> < pow2 1024"
  shows "f64_round a = Fin (of_int (round_half_even (a / pow2 (e - 52))) * pow2 (e - 52))"
  using assms by (intro f64_round_fin) simp_all

lemmas rnd = pow2_def round_half_even_def

lemma round_ints:
  "f64_round 1 = Fin 1" "f64_round 2 = Fin 2" "f64_round 6 = Fin 6"
  "f64_round 24 = Fin 24" "f64_round 120 = Fin 120"
  using f64_round_at [of 0 1] f64_round_at [of 1 2] f64_round_at [of 2 6]
    f64_round_at [of 4 24] f64_round_at [of 6 120]
  by (simp_all add: rnd)

lemma round_quotients:
  "f64_round (1 / 2) = Fin (1 / 2)"
  "f64_round (1 / 6) = Fin (6004799503160661 / 36028797018963968)"
  "f64_round (1 / 24) = Fin (6004799503160661 / 144115188075855872)"
  "f64_round (1 / 120) = Fin (4803839602528529 / 576460752303423488)"
  using f64_round_at [of "- 1" "1 / 2"] f64_round_at [of "- 3" "1 / 6"]
    f64_round_at [of "- 5" "1 / 24"] f64_round_at [of "- 7" "1 / 120"]
  by (simp_all add: rnd)

lemma exp_term_values:
  "exp_term 0 1 = Fin 1" "exp_term (Suc 0) 1 = Fin 1" "exp_term 2 1 = Fin (1 / 2)"
  "exp_term 3 1 = Fin (6004799503160661 / 36028797018963968)"
  "exp_term 4 1 = Fin (6004799503160661 / 144115188075855872)"
  "exp_term 5 1 = Fin (4803839602528529 / 576460752303423488)"
  by (simp_all add: exp_term_def np_power_def f64_of_int_def fact_numeral round_ints round_quotients)

lemma exp_sums:
  "fadd (Fin 1) (Fin 1) = Fin 2"
  "fadd (Fin 2) (Fin (1 / 2)) = Fin (5 / 2)"
  "fadd (Fin (5 / 2)) (Fin (6004799503160661 / 36028797018963968))
     = Fin (6004799503160661 / 2251799813685248)"
  "fadd (Fin (6004799503160661 / 2251799813685248)) (Fin (6004799503160661 / 144115188075855872))
     = Fin (3049312247698773 / 1125899906842624)"
  "fadd (Fin (3049312247698773 / 1125899906842624)) (Fin (4803839602528529 / 576460752303423488))
     = Fin (6117389493844923 / 2251799813685248)"
  using f64_round_at [of 1 2] f64_round_at [of 1 "2 + 1 / 2"]
    f64_round_at [of 1 "5 / 2 + 6004799503160661 / 36028797018963968"]
    f64_round_at [of 1 "6004799503160661 / 2251799813685248 + 6004799503160661 / 144115188075855872"]
    f64_round_at [of 1 "3049312247698773 / 1125899906842624 + 4803839602528529 / 576460752303423488"]
  by (simp_all add: rnd)

lemma exp_diff:
  "fsub (Fin (6117389493844923 / 2251799813685248)) (Fin (6121026514868073 / 2251799813685248))
     = Fin (- (1818510511575 / 1125899906842624))"
  using f64_round_at [of "- 10" "6117389493844923 / 2251799813685248 - 6121026514868073 / 2251799813685248"]
  by (simp add: rnd fsub_def)

lemma range6: "[0..<6] = [0, 1, 2, 3, 4, 5]"
  by (simp add: upt_rec)

lemma exp_cumsum:
  "cumsum (map (\<lambda>r. exp_term r 1) [0..<6]) =
     [Fin 1, Fin 2, Fin (5 / 2), Fin (6004799503160661 / 2251799813685248),
      Fin (3049312247698773 / 1125899906842624), Fin (6117389493844923 / 2251799813685248)]"
  by (simp add: range6 exp_term_values exp_sums del: fadd.simps)

lemma real_1: "fexp (f64_of_int 1) = Fin (6121026514868073 / 2251799813685248)"
  by (simp add: f64_of_int_def round_ints fexp_1 del: fexp.simps)

lemma key_exp: "py_replace ''exp_term'' ''_term'' [] = ''exp''"
  by code_simp


lemma round_half_even_ge: "of_int n \<le> y \<Longrightarrow> n \<le> round_half_even y"
proof -
  assume "of_int n \<le> y"
  then have "n \<le> \<lfloor>y\<rfloor>" by (simp add: le_floor_iff)
  then show ?thesis by (simp add: round_half_even_def Let_def)
qed

lemma f64_round_overflows:
  assumes "pow2 1024 \<le> a"
  shows "f64_round a = PInf"
proof -
  have p: "pow2 1023 \<le> pow2 1024" by (rule pow2_mono) simp
  have a: "0 < a" using assms pow2_pos [of 1024] by linarith
  then have "pow2 1023 \<le> \<bar>a\<bar>" using assms p by linarith
  then have e: "expo a = 1023" unfolding expo_def by (rule expo_down_large)
  have q: "pow2 1024 = 2 ^ 53 * pow2 971" by (simp add: pow2_def flip: power_add)
  have "of_int (2 ^ 53) \<le> a / pow2 971"
    using assms pow2_pos [of 971] by (simp add: q pos_le_divide_eq)
  then have "2 ^ 53 \<le> round_half_even (a / pow2 971)" by (rule round_half_even_ge)
  then have "(2 ^ 53 :: real) \<le> of_int (round_half_even (a / pow2 971))"
    by (metis of_int_le_iff of_int_numeral of_int_power)
  then have "pow2 1024 \<le> of_int (round_half_even (a / pow2 971)) * pow2 971"
    using pow2_pos [of 971] by (simp add: q)
  then have "pow2 1024 \<le> \<bar>of_int (round_half_even (a / pow2 971)) * pow2 971\<bar>"
    by linarith
  then show ?thesis using a e by (simp add: f64_round_def Let_def)
qed

lemma exp_1024: "pow2 1024 \<le> exp (1024 :: real)"
proof -
  have "(2 :: real) \<le> exp 1" using exp_ge_add_one_self [of "1 :: real"] by simp
  then have "(2 :: real) ^ 1024 \<le> exp 1 ^ 1024" by (rule power_mono) simp
  also have "\<dots> = exp (of_nat 1024 * 1)" by (rule exp_of_nat_mult [symmetric])
  finally show ?thesis by (simp add: pow2_def)
qed

lemma real_1024: "fexp (f64_of_int 1024) = PInf"
proof -
  have "f64_round 1024 = Fin 1024"
    using f64_round_at [of 10 1024] by (simp add: rnd)
  then show ?thesis
    by (simp add: f64_of_int_def f64_round_overflows [OF exp_1024])
qed


lemma expo_down_le: "pow2 (- 1022) \<le> a \<Longrightarrow> pow2 (expo_down k a) \<le> a"
  by (induction k) simp_all

lemma pow2_shift: "pow2 (e - 52) * 4503599627370496 = pow2 e"
  by (simp add: pow2_powi power_int_diff)

lemma f64_round_ge_1:
  assumes "1 \<le> a"
  shows "f64_round a = PInf \<or> (\<exists>b. f64_round a = Fin b \<and> 0 < b)"
proof -
  let ?q = "pow2 (expo a - 52)"
  have q: "0 < ?q" by (rule pow2_pos)
  have "pow2 (- 1022) \<le> pow2 0" by (rule pow2_mono) simp
  then have "pow2 (- 1022) \<le> \<bar>a\<bar>" using assms by (simp add: pow2_def)
  then have "pow2 (expo a) \<le> \<bar>a\<bar>" unfolding expo_def by (rule expo_down_le)
  then have "?q * 2 ^ 52 \<le> a" using assms by (simp add: pow2_shift)
  then have "of_int (2 ^ 52) \<le> a / ?q" using q by (simp add: pos_le_divide_eq mult.commute)
  then have "2 ^ 52 \<le> round_half_even (a / ?q)" by (rule round_half_even_ge)
  moreover have "(0 :: int) < 2 ^ 52" by simp
  ultimately have "0 < round_half_even (a / ?q)" by (rule less_le_trans [rotated])
  then have "0 < of_int (round_half_even (a / ?q)) * ?q" using q by simp
  then show ?thesis using assms by (simp add: f64_round_def Let_def)
qed

lemma fdiv_zero_by: "1 \<le> a \<Longrightarrow> fdiv (Fin 0) (f64_round a) = Fin 0"
  using f64_round_ge_1 [of a] by (auto simp: f64_round_0)


section \<open>Properties of the Maclaurin table\<close>

subsection \<open>The term loop and the running sums\<close>

lemma term_loop_snd: "snd (term_loop term x rs st) = snd st @ map (\<lambda>r. Term_call r x) rs"
  by (induction rs arbitrary: st) auto

lemma term_loop_length: "length (fst (term_loop term x rs st)) = length (fst st)"
  by (induction rs arbitrary: st) auto

lemma term_loop_nth:
  "i < length (fst st) \<Longrightarrow>
   fst (term_loop term x rs st) ! i = (if i \<in> set rs then fn_call term i x else fst st ! i)"
  by (induction rs arbitrary: st) (auto simp: term_loop_length nth_list_update)

lemma term_loop_range:
  "fst (term_loop term x [0..<n] (replicate n v, out)) = map (\<lambda>r. fn_call term r x) [0..<n]"
  by (rule nth_equalityI) (simp_all add: term_loop_length term_loop_nth)

lemma evaluate_callable:
  assumes "np (py_replace (fn_name term) ''_term'' []) = Some (Callable f)"
  shows "evaluate np term x max_terms out =
     (if 100 \<le> max_terms then
        (Inl InvalidArgument,
         out @ [Printed ''Too many terms; for this demo use less than 100 terms!''])
      else if max_terms < 0 then
        (Inl ValueError, out @ [Real_call (py_replace (fn_name term) ''_term'' []) x])
      else
        (Inr \<lparr>real_value = f x,
              terms = map (\<lambda>r. fn_call term r x) [0..<nat max_terms],
              result_to_r = cumsum (map (\<lambda>r. fn_call term r x) [0..<nat max_terms]),
              differences = map (\<lambda>c. fsub c (f x))
                              (cumsum (map (\<lambda>r. fn_call term r x) [0..<nat max_terms]))\<rparr>,
         out @ Real_call (py_replace (fn_name term) ''_term'' []) x
               # map (\<lambda>r. Term_call r x) [0..<nat max_terms]))"
  using assms by (simp add: evaluate_def Let_def term_loop_range term_loop_snd)

lemma cumsum_from_length: "length (cumsum_from acc vs) = length vs"
  by (induction vs arbitrary: acc) auto

lemma cumsum_length: "length (cumsum vs) = length vs"
  by (cases vs) (auto simp: cumsum_from_length)

lemma cumsum_from_nth:
  "i < length vs \<Longrightarrow>
   cumsum_from acc vs ! i = fadd (if i = 0 then acc else cumsum_from acc vs ! (i - 1)) (vs ! i)"
proof (induction vs arbitrary: acc i)
  case Nil
  then show ?case by simp
next
  case (Cons v vs)
  show ?case
  proof (cases i)
    case 0
    then show ?thesis by simp
  next
    case (Suc j)
    with Cons.prems have "j < length vs" by simp
    from Cons.IH [OF this, of "fadd acc v"] Suc show ?thesis
      by (cases j) simp_all
  qed
qed

lemma cumsum_nth:
  "i < length vs \<Longrightarrow>
   cumsum vs ! i = (if i = 0 then vs ! 0 else fadd (cumsum vs ! (i - 1)) (vs ! i))"
proof (cases vs)
  case Nil
  assume "i < length vs"
  with Nil show ?thesis by simp
next
  case (Cons v ws)
  assume "i < length vs"
  with Cons show ?thesis
    by (cases i) (auto simp: cumsum_from_nth nth_Cons')
qed

lemma cumsum_from_foldl: "i < length vs \<Longrightarrow> cumsum_from acc vs ! i = foldl fadd acc (take (Suc i) vs)"
proof (induction vs arbitrary: acc i)
  case Nil
  then show ?case by simp
next
  case (Cons v vs)
  then show ?case by (cases i) simp_all
qed

lemma cumsum_foldl: "i < length vs \<Longrightarrow> cumsum vs ! i = foldl fadd (hd vs) (take i (tl vs))"
  by (cases vs; cases i) (simp_all add: cumsum_from_foldl)

subsection \<open>The exits of the function\<close>

lemma evaluate_too_many:
  "100 \<le> max_terms \<Longrightarrow> evaluate np term x max_terms out =
     (Inl InvalidArgument, out @ [Printed ''Too many terms; for this demo use less than 100 terms!''])"
  by (simp add: evaluate_def)

lemma evaluate_unknown:
  assumes "np (py_replace (fn_name term) ''_term'' []) = None"
  shows "evaluate np term x max_terms out =
     (if 100 \<le> max_terms then
        (Inl InvalidArgument,
         out @ [Printed ''Too many terms; for this demo use less than 100 terms!''])
      else
        (Inl UnknownFunction,
         out @ [Printed (''Unknown function '' @ [CHR 0x27]
                         @ py_replace (fn_name term) ''_term'' [] @ [CHR 0x27] @ ''!'')]))"
  using assms by (simp add: evaluate_def Let_def)

lemma evaluate_constant:
  assumes "np (py_replace (fn_name term) ''_term'' []) = Some (Constant c)"
  shows "evaluate np term x max_terms out =
     (if 100 \<le> max_terms then
        (Inl InvalidArgument,
         out @ [Printed ''Too many terms; for this demo use less than 100 terms!''])
      else (Inl TypeError, out))"
  using assms by (simp add: evaluate_def Let_def)

lemma lookup_cases:
  obtains "np k = None"
  | c where "np k = Some (Constant c)"
  | f where "np k = Some (Callable f)"
  by (cases "np k") (auto intro: attr.exhaust)

lemma evaluate_success:
  assumes "fst (evaluate np term x max_terms out) = Inr s"
  obtains f where "np (py_replace (fn_name term) ''_term'' []) = Some (Callable f)"
    and "0 \<le> max_terms" and "max_terms < 100"
    and "s = \<lparr>real_value = f x,
              terms = map (\<lambda>r. fn_call term r x) [0..<nat max_terms],
              result_to_r = cumsum (map (\<lambda>r. fn_call term r x) [0..<nat max_terms]),
              differences = map (\<lambda>c. fsub c (f x))
                              (cumsum (map (\<lambda>r. fn_call term r x) [0..<nat max_terms]))\<rparr>"
proof (cases rule: lookup_cases [of np "py_replace (fn_name term) ''_term'' []"])
  case 1
  with assms show ?thesis by (simp add: evaluate_unknown split: if_splits)
next
  case (2 c)
  with assms show ?thesis by (simp add: evaluate_constant split: if_splits)
next
  case (3 f)
  with assms that [of f] show ?thesis
    by (simp add: evaluate_callable split: if_splits)
qed

lemma py_int_error: "py_int v = Inl e \<Longrightarrow> e = ValueError \<or> e = OverflowError"
  by (cases v) auto

lemma print_table_not_invalid: "fst (print_table n x m s out) \<noteq> Inl InvalidArgument"
  by (auto simp: print_table_def Let_def split: sum.splits dest: py_int_error)

lemma print_table_not_unknown: "fst (print_table n x m s out) \<noteq> Inl UnknownFunction"
  by (auto simp: print_table_def Let_def split: sum.splits dest: py_int_error)

lemma print_table_term_calls:
  "filter is_term_call (snd (print_table n x m s out)) = filter is_term_call out"
  by (simp add: print_table_def Let_def filter_map comp_def split: sum.splits)

lemma print_table_out:
  "print_table n x m s out = (fst (print_table n x m s []), out @ snd (print_table n x m s []))"
  by (simp add: print_table_def Let_def split: sum.splits)

lemma print_table_empty:
  "result_to_r s = [] \<Longrightarrow> print_table n x m s out =
     (case py_int (real_value s) of Inl e \<Rightarrow> (Inl e, out) | Inr a \<Rightarrow> (Inl IndexError, out))"
  by (simp add: print_table_def split: sum.splits)

lemma print_maclaurin_table_callable:
  assumes "np (py_replace (fn_name term) ''_term'' []) = Some (Callable f)"
  shows "print_maclaurin_table np term x max_terms out =
     (if 100 \<le> max_terms then
        (Inl InvalidArgument,
         out @ [Printed ''Too many terms; for this demo use less than 100 terms!''])
      else if max_terms < 0 then
        (Inl ValueError, out @ [Real_call (py_replace (fn_name term) ''_term'' []) x])
      else
        print_table (py_replace (fn_name term) ''_term'' []) x max_terms
          \<lparr>real_value = f x,
           terms = map (\<lambda>r. fn_call term r x) [0..<nat max_terms],
           result_to_r = cumsum (map (\<lambda>r. fn_call term r x) [0..<nat max_terms]),
           differences = map (\<lambda>c. fsub c (f x))
                           (cumsum (map (\<lambda>r. fn_call term r x) [0..<nat max_terms]))\<rparr>
          (out @ Real_call (py_replace (fn_name term) ''_term'' []) x
                 # map (\<lambda>r. Term_call r x) [0..<nat max_terms]))"
  by (simp add: print_maclaurin_table_def evaluate_callable [of np "term" f, OF assms])

lemma invalid_argument_iff:
  "fst (print_maclaurin_table np term x max_terms out) = Inl InvalidArgument \<longleftrightarrow> 100 \<le> max_terms"
proof (cases rule: lookup_cases [of np "py_replace (fn_name term) ''_term'' []"])
  case 1
  then show ?thesis by (simp add: print_maclaurin_table_def evaluate_unknown)
next
  case (2 c)
  then show ?thesis by (simp add: print_maclaurin_table_def evaluate_constant)
next
  case (3 f)
  then show ?thesis by (simp add: print_maclaurin_table_callable print_table_not_invalid)
qed

lemma unknown_function_iff:
  "fst (print_maclaurin_table np term x max_terms out) = Inl UnknownFunction \<longleftrightarrow>
     max_terms < 100 \<and> np (py_replace (fn_name term) ''_term'' []) = None"
proof (cases rule: lookup_cases [of np "py_replace (fn_name term) ''_term'' []"])
  case 1
  then show ?thesis by (simp add: print_maclaurin_table_def evaluate_unknown)
next
  case (2 c)
  then show ?thesis by (simp add: print_maclaurin_table_def evaluate_constant)
next
  case (3 f)
  then show ?thesis by (simp add: print_maclaurin_table_callable print_table_not_unknown)
qed

lemma term_calls_count:
  "length (filter is_term_call (snd (print_maclaurin_table np term x max_terms []))) =
     (if fst (evaluate np term x max_terms []) = Inl InvalidArgument
         \<or> fst (evaluate np term x max_terms []) = Inl UnknownFunction
         \<or> fst (evaluate np term x max_terms []) = Inl TypeError then 0 else nat max_terms)"
proof (cases rule: lookup_cases [of np "py_replace (fn_name term) ''_term'' []"])
  case 1
  then show ?thesis by (simp add: print_maclaurin_table_def evaluate_unknown)
next
  case (2 c)
  then show ?thesis by (simp add: print_maclaurin_table_def evaluate_constant)
next
  case (3 f)
  then show ?thesis
    by (simp add: print_maclaurin_table_callable evaluate_callable print_table_term_calls
        filter_map comp_def)
qed

lemma numpy_exp: "numpy_mod (py_replace (fn_name exp_term_fn) ''_term'' []) = Some (Callable (\<lambda>x. fexp (f64_of_int (sint x))))"
  by (simp add: numpy_mod_def exp_term_fn_def key_exp)



subsection \<open>The notebook's call at small sizes\<close>

lemma exp_real_diffs:
  "fsub (Fin 1) (Fin (6121026514868073 / 2251799813685248))
     = Fin (- (3869226701182825 / 2251799813685248))"
  "fsub (Fin 2) (Fin (6121026514868073 / 2251799813685248))
     = Fin (- (1617426887497577 / 2251799813685248))"
  using f64_round_at [of 0 "1 - 6121026514868073 / 2251799813685248"]
    f64_round_at [of "- 1" "2 - 6121026514868073 / 2251799813685248"]
  by (simp_all add: rnd fsub_def)

lemma exp_term_fn_sel:
  "fn_name exp_term_fn = ''exp_term''" "fn_call exp_term_fn = exp_term"
  by (simp_all add: exp_term_fn_def)

lemma range2: "[0..<2] = [0, 1]"
  by (simp add: upt_rec)

lemma exp_series_2:
  "evaluate numpy_mod exp_term_fn 1 2 [] =
     (Inr \<lparr>real_value = Fin (6121026514868073 / 2251799813685248),
           terms = [Fin 1, Fin 1],
           result_to_r = [Fin 1, Fin 2],
           differences = [Fin (- (3869226701182825 / 2251799813685248)),
                          Fin (- (1617426887497577 / 2251799813685248))]\<rparr>,
      [Real_call ''exp'' 1, Term_call 0 1, Term_call 1 1])"
  by (simp add: evaluate_callable [of numpy_mod exp_term_fn _, OF numpy_exp] range2 real_1
      exp_term_fn_sel key_exp exp_term_values exp_sums exp_real_diffs del: fadd.simps)

lemma exp_series_6:
  "\<exists>ds. evaluate numpy_mod exp_term_fn 1 6 [] =
     (Inr \<lparr>real_value = Fin (6121026514868073 / 2251799813685248),
           terms = [Fin 1, Fin 1, Fin (1 / 2), Fin (6004799503160661 / 36028797018963968),
                    Fin (6004799503160661 / 144115188075855872),
                    Fin (4803839602528529 / 576460752303423488)],
           result_to_r = [Fin 1, Fin 2, Fin (5 / 2), Fin (6004799503160661 / 2251799813685248),
                          Fin (3049312247698773 / 1125899906842624),
                          Fin (6117389493844923 / 2251799813685248)],
           differences = ds @ [Fin (- (1818510511575 / 1125899906842624))]\<rparr>,
      Real_call ''exp'' 1 # map (\<lambda>r. Term_call r 1) [0..<6])
    \<and> length ds = 5"
proof -
  have c: "cumsum (map (\<lambda>r. fn_call exp_term_fn r 1) [0..<nat 6]) =
     [Fin 1, Fin 2, Fin (5 / 2), Fin (6004799503160661 / 2251799813685248),
      Fin (3049312247698773 / 1125899906842624), Fin (6117389493844923 / 2251799813685248)]"
    using exp_cumsum by (simp add: exp_term_fn_sel)
  have t: "map (\<lambda>r. fn_call exp_term_fn r 1) [0..<nat 6] =
     [Fin 1, Fin 1, Fin (1 / 2), Fin (6004799503160661 / 36028797018963968),
                    Fin (6004799503160661 / 144115188075855872),
                    Fin (4803839602528529 / 576460752303423488)]"
    by (simp add: exp_term_fn_sel range6 exp_term_values)
  show ?thesis
    unfolding evaluate_callable [of numpy_mod exp_term_fn _, OF numpy_exp] c t
    by (rule exI [of _ "map (\<lambda>c. fsub c (Fin (6121026514868073 / 2251799813685248)))
           [Fin 1, Fin 2, Fin (5 / 2), Fin (6004799503160661 / 2251799813685248),
            Fin (3049312247698773 / 1125899906842624)]"])
      (simp add: real_1 exp_term_fn_sel key_exp exp_diff exp_sums range6 exp_term_values del: fadd.simps)
qed

lemma numpy_pi:
  "numpy_mod (py_replace (fn_name \<lparr>fn_name = ''pi_term'', fn_call = exp_term\<rparr>) ''_term'' [])
     = Some (Constant (f64_round pi))"
proof -
  have "py_replace ''pi_term'' ''_term'' [] = ''pi''" by code_simp
  then show ?thesis by (simp add: numpy_mod_def)
qed

lemma pi_term_type_error:
  "max_terms < 100 \<Longrightarrow>
   print_maclaurin_table numpy_mod \<lparr>fn_name = ''pi_term'', fn_call = exp_term\<rparr> x max_terms out
     = (Inl TypeError, out)"
  using numpy_pi by (simp add: print_maclaurin_table_def evaluate_constant)

lemma exp_overflow_call:
  "0 \<le> max_terms \<Longrightarrow> max_terms < 100 \<Longrightarrow>
   print_maclaurin_table numpy_mod exp_term_fn 1024 max_terms [] =
     (Inl OverflowError, Real_call ''exp'' 1024 # map (\<lambda>r. Term_call r 1024) [0..<nat max_terms])"
  by (simp add: print_maclaurin_table_callable [of numpy_mod exp_term_fn _, OF numpy_exp]
      print_table_def real_1024 exp_term_fn_sel key_exp)

lemma print_maclaurin_table_finite:
  assumes f: "np (py_replace (fn_name term) ''_term'' []) = Some (Callable f)"
    and m: "0 < max_terms" "max_terms < 100"
    and rv: "f x = Fin rv"
    and c: "last (cumsum (map (\<lambda>r. fn_call term r x) [0..<nat max_terms])) = Fin c"
  shows "\<exists>w. print_maclaurin_table np term x max_terms out =
     (Inr (),
      out @ Real_call (py_replace (fn_name term) ''_term'' []) x
          # map (\<lambda>r. Term_call r x) [0..<nat max_terms]
          @ Table_head (py_replace (fn_name term) ''_term'' []) x (w + 2)
          # map (\<lambda>i. Table_row (int i + 1) (fn_call term i x)
                       (cumsum (map (\<lambda>r. fn_call term r x) [0..<nat max_terms]) ! i)
                       (fsub (cumsum (map (\<lambda>r. fn_call term r x) [0..<nat max_terms]) ! i) (f x))
                       w)
              [0..<nat max_terms]
          @ [Table_foot (f x) (w + 2)])"
proof -
  let ?ts = "map (\<lambda>r. fn_call term r x) [0..<nat max_terms]"
  have ne: "cumsum ?ts \<noteq> []"
    using m by (metis cumsum_length length_map length_upt diff_zero length_0_conv
        nat_0_iff not_le order_less_imp_le)
  have rows: "map (\<lambda>r. Table_row (int r + 1) (?ts ! r) (cumsum ?ts ! r)
                      (map (\<lambda>c. fsub c (f x)) (cumsum ?ts) ! r) w) [0..<nat max_terms]
            = map (\<lambda>i. Table_row (int i + 1) (fn_call term i x) (cumsum ?ts ! i)
                      (fsub (cumsum ?ts ! i) (f x)) w) [0..<nat max_terms]" for w
    by (rule map_cong [OF refl]) (simp add: cumsum_length)
  show ?thesis
    using m ne rows
    by (simp add: print_maclaurin_table_callable [of np "term" f, OF f] print_table_def
        rv c Let_def)
qed

subsection \<open>The exponential series at zero\<close>

lemma exp_term_at_0: "exp_term r 0 = (if r = 0 then Fin 1 else Fin 0)"
proof (cases "r = 0")
  case True
  then show ?thesis
    by (simp add: exp_term_def np_power_def f64_of_int_def round_ints)
next
  case False
  have "(1 :: real) \<le> of_int (fact r)"
    by (metis fact_ge_1 of_int_1_le_iff)
  then have "fdiv (Fin 0) (f64_round (of_int (fact r))) = Fin 0"
    by (rule fdiv_zero_by)
  then show ?thesis
    using False
    by (simp add: exp_term_def np_power_def f64_of_int_def f64_round_0 power_0_left
        del: fdiv.simps)
qed

lemma real_0: "fexp (f64_of_int 0) = Fin 1"
  by (simp add: f64_of_int_def f64_round_0 round_ints)

lemma cumsum_from_one_zeros:
  "cumsum_from (Fin 1) (replicate n (Fin 0)) = replicate n (Fin 1)"
  by (induction n) (simp_all add: round_ints)

lemma exp_terms_at_0:
  "map (\<lambda>r. fn_call exp_term_fn r 0) [0..<Suc n] = Fin 1 # replicate n (Fin 0)"
proof -
  have "map (\<lambda>r. exp_term r 0) [Suc 0..<Suc n] = map (\<lambda>r. Fin 0) [Suc 0..<Suc n]"
    by (rule map_cong [OF refl]) (auto simp: exp_term_at_0)
  then show ?thesis
    by (simp add: exp_term_fn_sel upt_conv_Cons exp_term_at_0 map_replicate_const
        del: upt_Suc)
qed

lemma exp_last_at_0:
  "last (cumsum (map (\<lambda>r. fn_call exp_term_fn r 0) [0..<Suc n])) = Fin 1"
  by (simp add: exp_terms_at_0 cumsum_from_one_zeros del: upt_Suc)


subsection \<open>Pure callables\<close>

lemma term_loop_in_pure:
  "term_loop_in (pure_term term) x rs (ts, w) =
     (fst (term_loop term x rs (ts, trace w)),
      w\<lparr>trace := snd (term_loop term x rs (ts, trace w))\<rparr>)"
proof (induction rs arbitrary: ts w)
  case Nil
  then show ?case by simp
next
  case (Cons r rs)
  show ?case
    using Cons.IH [of "ts[r := fn_call term r x]" "w\<lparr>trace := trace w @ [Term_call r x]\<rparr>"]
    by (simp add: pure_term_def)
qed

lemma pure_term_name: "obj_name (pure_term term) = fn_name term"
  by (simp add: pure_term_def)

lemma print_maclaurin_table_in_pure:
  "print_maclaurin_table_in (pure_module np) (pure_term term) x max_terms w =
     (fst (print_maclaurin_table np term x max_terms []),
      w\<lparr>trace := trace w @ snd (print_maclaurin_table np term x max_terms [])\<rparr>)"
proof (cases rule: lookup_cases [of np "py_replace (fn_name term) ''_term'' []"])
  case 1
  then show ?thesis
    by (simp add: print_maclaurin_table_in_def pure_module_def pure_term_name
        print_maclaurin_table_def evaluate_unknown)
next
  case (2 c)
  then show ?thesis
    by (simp add: print_maclaurin_table_in_def pure_module_def pure_term_name
        print_maclaurin_table_def evaluate_constant)
next
  case (3 f)
  let ?k = "py_replace (fn_name term) ''_term'' []"
  let ?ts = "map (\<lambda>r. fn_call term r x) [0..<nat max_terms]"
  let ?s = "\<lparr>real_value = f x, terms = ?ts, result_to_r = cumsum ?ts,
             differences = map (\<lambda>c. fsub c (f x)) (cumsum ?ts)\<rparr>"
  let ?pre = "Real_call ?k x # map (\<lambda>r. Term_call r x) [0..<nat max_terms]"
  have p: "print_table ?k x max_terms ?s (trace w @ ?pre) =
             (fst (print_table ?k x max_terms ?s ?pre),
              trace w @ snd (print_table ?k x max_terms ?s ?pre))"
    using print_table_out [of ?k x max_terms ?s "trace w @ ?pre"]
      print_table_out [of ?k x max_terms ?s ?pre]
    by simp
  show ?thesis
    using 3 p
    by (simp add: print_maclaurin_table_in_def pure_module_def pure_term_name Let_def
        term_loop_in_pure term_loop_range term_loop_snd
        print_maclaurin_table_callable [of np "term" f])
qed

text \<open>
  A term function that counts its calls in the globals is not pure, and a call with
  it changes the globals: the hypothesis of purity is needed.
\<close>

lemma counting_term_changes_globals:
  "globals (snd (print_maclaurin_table_in (pure_module numpy_mod)
      \<lparr>obj_name = ''exp_term'', obj_call = (\<lambda>r x g. (Fin (real g), Suc g))\<rparr> 1 2 w))
     = Suc (Suc (globals w))"
  by (simp add: print_maclaurin_table_in_def pure_module_def numpy_mod_def key_exp Let_def
      range2 split: prod.splits)

lemma pure_term_covers:
  fixes t :: "('x, 'g) term_obj"
  assumes "\<forall>r x g. obj_call t r x g = (h r x, g)"
  shows "t = pure_term \<lparr>fn_name = obj_name t, fn_call = h\<rparr>"
proof -
  have "obj_call t = (\<lambda>r x g. (h r x, g))" using assms by (intro ext) simp
  then show ?thesis by (simp add: pure_term_def)
qed

lemma pure_module_covers:
  fixes M :: "string \<rightharpoonup> ('x, 'g) obj"
  assumes "\<forall>n fn. M n = Some (Function fn) \<longrightarrow> (\<exists>h. \<forall>x g. fn x g = (h x, g))"
  shows "\<exists>np. M = pure_module np"
proof -
  define np where "np n = (case M n of
      None \<Rightarrow> None
    | Some (Value c) \<Rightarrow> Some (Constant c)
    | Some (Function fn) \<Rightarrow> Some (Callable (\<lambda>x. fst (fn x undefined))))" for n
  have "M n = pure_module np n" for n
  proof (cases "M n")
    case None
    then show ?thesis by (simp add: pure_module_def np_def)
  next
    case (Some a)
    show ?thesis
    proof (cases a)
      case (Value c)
      with Some show ?thesis by (simp add: pure_module_def np_def)
    next
      case (Function fn)
      with Some assms obtain h where h: "\<forall>x g. fn x g = (h x, g)" by blast
      then have "fn = (\<lambda>x g. (fst (fn x undefined), g))" by (intro ext) simp
      with Some Function show ?thesis by (simp add: pure_module_def np_def)
    qed
  qed
  then show ?thesis by (intro exI [of _ np] ext)
qed

subsection \<open>The derivatives at zero and at overflow\<close>

lemma fmul_zero: "fmul (Fin a) (Fin 0) = Fin 0"
  by (simp add: f64_round_0)

lemma fsub_one_zero: "fsub (Fin 1) (Fin 0) = Fin 1"
  by (simp add: fsub_def round_ints)

lemma f64_round_overflow: "f64_round (2 ^ 1024) = PInf"
proof -
  have "expo (2 ^ 1024) = 1023"
    unfolding expo_def by (rule expo_down_large) (simp add: pow2_def)
  then show ?thesis
    by (simp add: f64_round_def rnd Let_def)
qed

lemma f64_round_big: "f64_round (2 ^ 1023) = Fin (2 ^ 1023)"
  using f64_round_at [of 1023 "2 ^ 1023"] by (simp add: rnd)

lemma population_derivatives_pair:
  "population_derivatives [y, z] t beta = Inr [fmul (fsub z beta) y, fmul (fsub (Fin 1) y) z]"
  by (simp add: population_derivatives_def)


section \<open>The claims\<close>

text \<open>
  Claim C1, as the specification states it: a call with \<open>max_terms\<close> equal to 99 or above
  fails with \<open>InvalidArgument\<close>, the term loop never runs more than 98 times, and a call
  with 98 terms and a resolvable name succeeds. The function compares \<open>max_terms\<close> with
  100, so the notebook's own series at 99 terms is not rejected and its loop runs 99
  times. And a call with 98 terms and a name that is an attribute of the module need
  not succeed: at \<open>x = 1024\<close> the reference value \<^verbatim>\<open>np.exp(x)\<close> is infinite and the call
  ends in \<^verbatim>\<open>OverflowError\<close>; with a term function named \<^verbatim>\<open>pi_term\<close> the attribute is not
  callable and the call ends in \<^verbatim>\<open>TypeError\<close>.
\<close>

theorem max_terms_99_counterexample:
  "fst (print_maclaurin_table numpy_mod exp_term_fn 1 99 []) \<noteq> Inl InvalidArgument
   \<and> length (filter is_term_call (snd (print_maclaurin_table numpy_mod exp_term_fn 1 99 []))) = 99
   \<and> fst (print_maclaurin_table numpy_mod exp_term_fn 1024 98 []) = Inl OverflowError
   \<and> fst (print_maclaurin_table numpy_mod \<lparr>fn_name = ''pi_term'', fn_call = exp_term\<rparr> 1 98 [])
       = Inl TypeError"
  by (simp add: invalid_argument_iff term_calls_count exp_overflow_call pi_term_type_error
      evaluate_callable [of numpy_mod exp_term_fn _, OF numpy_exp])

text \<open>
  Claim C1, amended: the ceiling is 100. Every call with \<open>max_terms\<close> of 100 or above
  fails with \<open>InvalidArgument\<close> after printing its message only; \<open>InvalidArgument\<close> is
  returned exactly when \<open>100 \<le> max_terms\<close>; no call runs the term loop more than 99
  times; and a call with 99 terms succeeds, evaluating 99 terms and printing 99 rows,
  when the name resolves to a function of the module and the reference value and the
  last cumulative sum are finite. The first three statements are about every module,
  term function and \<open>x\<close>; the hypotheses concern the call with 99 terms only.
\<close>

theorem max_terms_ceiling:
  assumes "np' (py_replace (fn_name term') ''_term'' []) = Some (Callable f)"
    and "f x' = Fin rv"
    and "last (cumsum (map (\<lambda>r. fn_call term' r x') [0..<99])) = Fin c"
  shows "(if 100 \<le> max_terms
          then print_maclaurin_table np term x max_terms out =
                 (Inl InvalidArgument,
                  out @ [Printed ''Too many terms; for this demo use less than 100 terms!''])
          else fst (print_maclaurin_table np term x max_terms out) \<noteq> Inl InvalidArgument)
       \<and> length (filter is_term_call (snd (print_maclaurin_table np term x max_terms []))) \<le> 99
       \<and> fst (print_maclaurin_table np' term' x' 99 out) = Inr ()
       \<and> length (filter is_term_call (snd (print_maclaurin_table np' term' x' 99 []))) = 99
       \<and> length (filter is_table_row (snd (print_maclaurin_table np' term' x' 99 []))) = 99"
proof -
  have "print_maclaurin_table np term x max_terms out =
           (Inl InvalidArgument,
            out @ [Printed ''Too many terms; for this demo use less than 100 terms!''])"
    if "100 \<le> max_terms"
    using that by (simp add: print_maclaurin_table_def evaluate_too_many)
  moreover have "length (filter is_term_call (snd (print_maclaurin_table np term x max_terms []))) \<le> 99"
    using evaluate_too_many [of max_terms np "term" x "[]"]
    by (cases "100 \<le> max_terms") (auto simp: term_calls_count)
  moreover have "fst (print_maclaurin_table np' term' x' 99 out') = Inr ()
       \<and> length (filter is_term_call (snd (print_maclaurin_table np' term' x' 99 out'))) =
           length (filter is_term_call out') + 99
       \<and> length (filter is_table_row (snd (print_maclaurin_table np' term' x' 99 out'))) =
           length (filter is_table_row out') + 99" for out'
    using print_maclaurin_table_finite [of np' term' f 99 x' rv c out'] assms
    by (auto simp: filter_map comp_def)
  from this [of out] this [of "[]"]
  have "fst (print_maclaurin_table np' term' x' 99 out) = Inr ()
       \<and> length (filter is_term_call (snd (print_maclaurin_table np' term' x' 99 []))) = 99
       \<and> length (filter is_table_row (snd (print_maclaurin_table np' term' x' 99 []))) = 99"
    by simp
  ultimately show ?thesis by (simp add: invalid_argument_iff)
qed

theorem max_terms_ceiling_witness:
  "numpy_mod (py_replace (fn_name exp_term_fn) ''_term'' [])
       = Some (Callable (\<lambda>x. fexp (f64_of_int (sint x))))
   \<and> fexp (f64_of_int (sint (0 :: 64 word))) = Fin 1
   \<and> last (cumsum (map (\<lambda>r. fn_call exp_term_fn r 0) [0..<99])) = Fin 1
   \<and> print_maclaurin_table numpy_mod exp_term_fn 0 100 [] =
       (Inl InvalidArgument, [Printed ''Too many terms; for this demo use less than 100 terms!''])
   \<and> fst (print_maclaurin_table numpy_mod exp_term_fn 0 99 []) = Inr ()
   \<and> length (filter is_term_call (snd (print_maclaurin_table numpy_mod exp_term_fn 0 99 []))) = 99
   \<and> length (filter is_table_row (snd (print_maclaurin_table numpy_mod exp_term_fn 0 99 []))) = 99"
proof -
  have l: "last (cumsum (map (\<lambda>r. fn_call exp_term_fn r 0) [0..<99])) = Fin 1"
    using exp_last_at_0 [of 98] by simp
  have r: "fexp (f64_of_int (sint (0 :: 64 word))) = Fin 1"
    by (simp add: real_0)
  show ?thesis
    using max_terms_ceiling [of numpy_mod exp_term_fn "\<lambda>x. fexp (f64_of_int (sint x))" 0 1 1
        100 numpy_mod exp_term_fn 0 "[]", OF numpy_exp r l] numpy_exp r l
    by simp
qed




text \<open>
  Claim C3: in a successful evaluation the cumulative sum of row \<open>i\<close> is the sum of the
  term values at the indices \<open>0..i\<close>, accumulated from the left in floating point:
  \<open>cumulative[0] = term[0]\<close> and \<open>cumulative[i] = cumulative[i-1] + term[i]\<close>.
\<close>

theorem prefix_sum_law:
  assumes "fst (evaluate np term x max_terms out) = Inr s" and "i < nat max_terms"
  shows "result_to_r s ! i =
           (if i = 0 then terms s ! 0 else fadd (result_to_r s ! (i - 1)) (terms s ! i))
       \<and> result_to_r s ! i = foldl fadd (hd (terms s)) (take i (tl (terms s)))"
proof -
  from assms(1) obtain f where
    s: "s = \<lparr>real_value = f x,
              terms = map (\<lambda>r. fn_call term r x) [0..<nat max_terms],
              result_to_r = cumsum (map (\<lambda>r. fn_call term r x) [0..<nat max_terms]),
              differences = map (\<lambda>c. fsub c (f x))
                              (cumsum (map (\<lambda>r. fn_call term r x) [0..<nat max_terms]))\<rparr>"
    by (rule evaluate_success)
  have r: "result_to_r s = cumsum (terms s)" and l: "i < length (terms s)"
    using assms(2) by (simp_all add: s)
  show ?thesis
    unfolding r using cumsum_nth [OF l] cumsum_foldl [OF l] by simp
qed

theorem prefix_sum_law_witness:
  "fst (evaluate numpy_mod exp_term_fn 1 2 []) =
     Inr \<lparr>real_value = Fin (6121026514868073 / 2251799813685248),
          terms = [Fin 1, Fin 1],
          result_to_r = [Fin 1, Fin 2],
          differences = [Fin (- (3869226701182825 / 2251799813685248)),
                         Fin (- (1617426887497577 / 2251799813685248))]\<rparr>
   \<and> (1::nat) < nat 2
   \<and> [Fin 1, Fin 2] ! 1 = fadd ([Fin 1, Fin 2] ! 0) ([Fin 1, Fin 1] ! 1)"
  using prefix_sum_law [of numpy_mod exp_term_fn 1 2 "[]" _ 1] exp_series_2
  by simp

text \<open>
  Claim C4: in a successful evaluation the reference value is computed once, as the
  module's function for the resolved name applied to \<open>x\<close>, and the error of every row
  \<open>i\<close> is \<open>cumulative[i]\<close> minus that one value.
\<close>

theorem single_reference_value:
  assumes "fst (evaluate np term x max_terms out) = Inr s" and "i < nat max_terms"
  shows "\<exists>f. np (py_replace (fn_name term) ''_term'' []) = Some (Callable f)
           \<and> real_value s = f x
           \<and> differences s ! i = fsub (result_to_r s ! i) (real_value s)
           \<and> differences s = map (\<lambda>c. fsub c (real_value s)) (result_to_r s)
           \<and> filter is_real_call (snd (evaluate np term x max_terms [])) =
               [Real_call (py_replace (fn_name term) ''_term'' []) x]"
proof -
  from assms(1) obtain f where
    f: "np (py_replace (fn_name term) ''_term'' []) = Some (Callable f)"
    and m: "0 \<le> max_terms" "max_terms < 100"
    and s: "s = \<lparr>real_value = f x,
              terms = map (\<lambda>r. fn_call term r x) [0..<nat max_terms],
              result_to_r = cumsum (map (\<lambda>r. fn_call term r x) [0..<nat max_terms]),
              differences = map (\<lambda>c. fsub c (f x))
                              (cumsum (map (\<lambda>r. fn_call term r x) [0..<nat max_terms]))\<rparr>"
    by (rule evaluate_success)
  have "filter is_real_call (snd (evaluate np term x max_terms [])) =
               [Real_call (py_replace (fn_name term) ''_term'' []) x]"
    using m by (simp add: evaluate_callable [of np "term" f, OF f] filter_map comp_def)
  then show ?thesis
    using f assms(2) by (intro exI [of _ f]) (simp add: s cumsum_length)
qed

theorem single_reference_value_witness:
  "fst (evaluate numpy_mod exp_term_fn 1 2 []) =
     Inr \<lparr>real_value = Fin (6121026514868073 / 2251799813685248),
          terms = [Fin 1, Fin 1],
          result_to_r = [Fin 1, Fin 2],
          differences = [Fin (- (3869226701182825 / 2251799813685248)),
                         Fin (- (1617426887497577 / 2251799813685248))]\<rparr>
   \<and> (1::nat) < nat 2
   \<and> Fin (- (1617426887497577 / 2251799813685248))
       = fsub (Fin 2) (Fin (6121026514868073 / 2251799813685248))
   \<and> filter is_real_call (snd (evaluate numpy_mod exp_term_fn 1 2 [])) = [Real_call ''exp'' 1]"
  using single_reference_value [of numpy_mod exp_term_fn 1 2 "[]" _ 1] exp_series_2
  by (auto simp: exp_term_fn_sel key_exp)

text \<open>
  Claim C5: a \<open>max_terms\<close> that is not positive must fail with \<open>InvalidArgument\<close> before
  anything is computed. The function has no lower bound on \<open>max_terms\<close>. The notebook's
  call with \<open>max_terms = 0\<close> computes the reference value \<^verbatim>\<open>np.exp(1)\<close> and then raises
  \<^verbatim>\<open>IndexError\<close> at \<^verbatim>\<open>result_to_r[-1]\<close>; with \<open>max_terms = -1\<close> it computes the reference
  value and raises \<^verbatim>\<open>ValueError\<close> in \<^verbatim>\<open>np.zeros\<close>.
\<close>

theorem max_terms_zero_not_rejected:
  "print_maclaurin_table numpy_mod exp_term_fn 1 0 [] = (Inl IndexError, [Real_call ''exp'' 1])
   \<and> print_maclaurin_table numpy_mod exp_term_fn 1 (- 1) [] =
       (Inl ValueError, [Real_call ''exp'' 1])"
  by (simp add: print_maclaurin_table_callable [of numpy_mod exp_term_fn _, OF numpy_exp]
      print_table_empty real_1 exp_term_fn_sel key_exp)

text \<open>
  Claim C6: if the name derived from the term function is not an attribute of the
  module, the call fails with \<open>UnknownFunction\<close>, unless the check of \<open>max_terms\<close>, which
  comes first, has already failed. In both cases the printed message is the only
  event: no row, no call of the term function, no reference value.
\<close>

theorem unknown_function:
  assumes "np (py_replace (fn_name term) ''_term'' []) = None"
  shows "print_maclaurin_table np term x max_terms out =
     (if 100 \<le> max_terms then
        (Inl InvalidArgument,
         out @ [Printed ''Too many terms; for this demo use less than 100 terms!''])
      else
        (Inl UnknownFunction,
         out @ [Printed (''Unknown function '' @ [CHR 0x27]
                         @ py_replace (fn_name term) ''_term'' [] @ [CHR 0x27] @ ''!'')]))"
  using assms by (simp add: print_maclaurin_table_def evaluate_unknown)

theorem unknown_function_witness:
  "numpy_mod (py_replace (fn_name \<lparr>fn_name = ''foo_term'', fn_call = exp_term\<rparr>) ''_term'' []) = None
   \<and> print_maclaurin_table numpy_mod \<lparr>fn_name = ''foo_term'', fn_call = exp_term\<rparr> 1 15 [] =
       (Inl UnknownFunction, [Printed (''Unknown function '' @ [CHR 0x27] @ ''foo'' @ [CHR 0x27] @ ''!'')])"
proof -
  have k: "py_replace ''foo_term'' ''_term'' [] = ''foo''" by code_simp
  have n: "numpy_mod (py_replace (fn_name \<lparr>fn_name = ''foo_term'', fn_call = exp_term\<rparr>) ''_term'' []) = None"
    by (simp add: k numpy_mod_def)
  show ?thesis
    using unknown_function [of numpy_mod "\<lparr>fn_name = ''foo_term'', fn_call = exp_term\<rparr>" 1 15 "[]"] n
    by (simp add: k)
qed

text \<open>
  Claim C7: the term function and the functions of the module are pure: they neither
  read nor change global state. Then the result of a call and the events it adds are
  those of the first model, the same in every world; two calls with the same
  arguments return the same result and add the same events; and a call leaves the
  globals as they were.
\<close>

theorem pure_callables_stateless:
  fixes t :: "('x, 'g) term_obj" and M :: "string \<rightharpoonup> ('x, 'g) obj"
  assumes "\<forall>r x g. obj_call t r x g = (h r x, g)"
    and "\<forall>n fn. M n = Some (Function fn) \<longrightarrow> (\<exists>k. \<forall>x g. fn x g = (k x, g))"
  shows "\<exists>np. M = pure_module np
     \<and> (\<forall>w. print_maclaurin_table_in M t x max_terms w =
           (fst (print_maclaurin_table np \<lparr>fn_name = obj_name t, fn_call = h\<rparr> x max_terms []),
            w\<lparr>trace := trace w
                 @ snd (print_maclaurin_table np \<lparr>fn_name = obj_name t, fn_call = h\<rparr>
                          x max_terms [])\<rparr>))
     \<and> (\<forall>w w'. fst (print_maclaurin_table_in M t x max_terms w)
                  = fst (print_maclaurin_table_in M t x max_terms w')
              \<and> drop (length (trace w)) (trace (snd (print_maclaurin_table_in M t x max_terms w)))
                  = drop (length (trace w'))
                      (trace (snd (print_maclaurin_table_in M t x max_terms w')))
              \<and> globals (snd (print_maclaurin_table_in M t x max_terms w)) = globals w)"
proof -
  from assms(2) obtain np where np: "M = pure_module np"
    using pure_module_covers by blast
  have t: "t = pure_term \<lparr>fn_name = obj_name t, fn_call = h\<rparr>"
    using assms(1) by (rule pure_term_covers)
  have run: "print_maclaurin_table_in M t x max_terms w =
           (fst (print_maclaurin_table np \<lparr>fn_name = obj_name t, fn_call = h\<rparr> x max_terms []),
            w\<lparr>trace := trace w
                 @ snd (print_maclaurin_table np \<lparr>fn_name = obj_name t, fn_call = h\<rparr>
                          x max_terms [])\<rparr>)" for w
    unfolding np by (subst t) (rule print_maclaurin_table_in_pure)
  show ?thesis
    by (rule exI [of _ np]) (simp add: np [symmetric] run)
qed

theorem pure_callables_stateless_witness:
  "obj_call (pure_term exp_term_fn) 0 1 (7 :: nat) = (exp_term 0 1, 7)
   \<and> (pure_module numpy_mod :: string \<rightharpoonup> (64 word, nat) obj) ''pi''
       = Some (Value (f64_round pi))
   \<and> fst (print_maclaurin_table_in (pure_module numpy_mod) (pure_term exp_term_fn) 1 2
            \<lparr>trace = [], globals = 0 :: nat\<rparr>)
       = fst (print_maclaurin_table_in (pure_module numpy_mod) (pure_term exp_term_fn) 1 2
            \<lparr>trace = [Printed ''before''], globals = 7 :: nat\<rparr>)
   \<and> globals (snd (print_maclaurin_table_in (pure_module numpy_mod) (pure_term exp_term_fn) 1 2
            \<lparr>trace = [Printed ''before''], globals = 7 :: nat\<rparr>)) = 7"
proof -
  have a: "\<forall>r x (g :: nat). obj_call (pure_term exp_term_fn) r x g = (exp_term r x, g)"
    by (simp add: pure_term_def exp_term_fn_sel)
  have b: "\<forall>n fn. (pure_module numpy_mod :: string \<rightharpoonup> (64 word, nat) obj) n = Some (Function fn)
         \<longrightarrow> (\<exists>k. \<forall>x g. fn x g = (k x, g))"
    by (auto simp: pure_module_def split: option.splits attr.splits)
  from pure_callables_stateless [OF a b, of 1 2] have
    "\<forall>w w'. fst (print_maclaurin_table_in (pure_module numpy_mod) (pure_term exp_term_fn) 1 2 w)
                  = fst (print_maclaurin_table_in (pure_module numpy_mod) (pure_term exp_term_fn)
                           1 2 w')
       \<and> drop (length (trace w))
             (trace (snd (print_maclaurin_table_in (pure_module numpy_mod)
                (pure_term exp_term_fn) 1 2 w)))
           = drop (length (trace w'))
               (trace (snd (print_maclaurin_table_in (pure_module numpy_mod)
                  (pure_term exp_term_fn) 1 2 (w' :: (64 word, nat) world))))
       \<and> globals (snd (print_maclaurin_table_in (pure_module numpy_mod)
             (pure_term exp_term_fn) 1 2 w)) = globals (w :: (64 word, nat) world)"
    by (elim exE conjE)
  from this [rule_format, of "\<lparr>trace = [], globals = 0\<rparr>"
      "\<lparr>trace = [Printed ''before''], globals = 7\<rparr>"]
    this [rule_format, of "\<lparr>trace = [Printed ''before''], globals = 7\<rparr>"
      "\<lparr>trace = [], globals = 0\<rparr>"] a b
  show ?thesis by (simp add: pure_module_def numpy_mod_def)
qed

text \<open>
  Claim C9: the key looked up is \<^verbatim>\<open>term.__name__.replace("_term", "")\<close>, and
  \<open>UnknownFunction\<close> is returned exactly when \<open>max_terms\<close> passes its check and the key
  is not an attribute of the module. So a term function named \<^verbatim>\<open>pi_term\<close> passes the
  validation when the module has a non-callable \<^verbatim>\<open>pi\<close>, and the call then raises
  \<^verbatim>\<open>TypeError\<close> where the attribute is applied to \<open>x\<close>.
\<close>

theorem non_callable_attribute:
  assumes "max_terms < 100" and "fn_name term = ''pi_term''" and "np ''pi'' = Some (Constant c)"
  shows "py_replace (fn_name term) ''_term'' [] = ''pi''
       \<and> print_maclaurin_table np term x max_terms out = (Inl TypeError, out)
       \<and> (fst (print_maclaurin_table np' term' x' max_terms' out') = Inl UnknownFunction
            \<longleftrightarrow> max_terms' < 100 \<and> np' (py_replace (fn_name term') ''_term'' []) = None)"
proof -
  have k: "py_replace (fn_name term) ''_term'' [] = ''pi''"
    unfolding assms(2) by code_simp
  then have "np (py_replace (fn_name term) ''_term'' []) = Some (Constant c)"
    using assms(3) by simp
  then have "print_maclaurin_table np term x max_terms out = (Inl TypeError, out)"
    using assms(1) by (simp add: print_maclaurin_table_def evaluate_constant)
  with k show ?thesis by (simp add: unknown_function_iff)
qed

theorem non_callable_attribute_witness:
  "(15::int) < 100
   \<and> fn_name \<lparr>fn_name = ''pi_term'', fn_call = exp_term\<rparr> = ''pi_term''
   \<and> numpy_mod ''pi'' = Some (Constant (f64_round pi))
   \<and> print_maclaurin_table numpy_mod \<lparr>fn_name = ''pi_term'', fn_call = exp_term\<rparr> 1 15 [] =
       (Inl TypeError, [])"
  using non_callable_attribute [of 15 "\<lparr>fn_name = ''pi_term'', fn_call = exp_term\<rparr>"
      numpy_mod "f64_round pi" 1 "[]" numpy_mod exp_term_fn 1 15 "[]"]
  by (simp add: numpy_mod_def)

text \<open>
  Claim C8, as the specification states it: at \<open>x = 1\<close> with six terms the error of
  the last row is approximately \<open>-0.001529\<close>. The value the function computes does not
  agree with that number even to within \<open>0.00005\<close>.
\<close>

theorem exp_error_counterexample:
  "\<not> near (differences (projr (fst (evaluate numpy_mod exp_term_fn 1 6 []))) ! 5)
          (- 0.001529) 0.00005"
proof -
  obtain ds where "fst (evaluate numpy_mod exp_term_fn 1 6 []) =
     Inr \<lparr>real_value = Fin (6121026514868073 / 2251799813685248),
           terms = [Fin 1, Fin 1, Fin (1 / 2), Fin (6004799503160661 / 36028797018963968),
                    Fin (6004799503160661 / 144115188075855872),
                    Fin (4803839602528529 / 576460752303423488)],
           result_to_r = [Fin 1, Fin 2, Fin (5 / 2), Fin (6004799503160661 / 2251799813685248),
                          Fin (3049312247698773 / 1125899906842624),
                          Fin (6117389493844923 / 2251799813685248)],
           differences = ds @ [Fin (- (1818510511575 / 1125899906842624))]\<rparr>"
    and "length ds = 5"
    using exp_series_6 by auto
  then show ?thesis by (simp add: near_def nth_append)
qed

text \<open>
  Claim C8, amended: the exponential term function at \<open>x = 1\<close> with \<open>max_terms = 6\<close>
  yields \<open>cumulative[5]\<close> equal to \<open>2.716666666667\<close> at twelve decimals (the binary64 sum
  of \<open>1, 1, 1/2, 1/6, 1/24, 1/120\<close>, within \<open>10\<^sup>-\<^sup>1\<^sup>5\<close> of the exact sum), the reference
  value is \<^verbatim>\<open>np.exp(1)\<close>, within \<open>10\<^sup>-\<^sup>1\<^sup>5\<close> of \<open>e\<close>, and \<open>error[5]\<close> is \<open>cumulative[5]\<close>
  minus the reference value, which is \<open>-0.001615\<close> at six decimals.
\<close>

theorem exp_series_at_1:
  "\<exists>s. fst (evaluate numpy_mod exp_term_fn 1 6 []) = Inr s
     \<and> terms s = map (\<lambda>r. exp_term r 1) [0..<6]
     \<and> result_to_r s ! 5 = Fin (6117389493844923 / 2251799813685248)
     \<and> near (result_to_r s ! 5) 2.716666666667 0.0000000000005
     \<and> near (result_to_r s ! 5) (1 + 1 + 1 / 2 + 1 / 6 + 1 / 24 + 1 / 120) 0.000000000000001
     \<and> real_value s = fexp (Fin 1)
     \<and> near (real_value s) (exp 1) 0.000000000000001
     \<and> differences s ! 5 = fsub (result_to_r s ! 5) (real_value s)
     \<and> differences s ! 5 = Fin (- (1818510511575 / 1125899906842624))
     \<and> near (differences s ! 5) (- 0.001615) 0.0000005"
proof -
  obtain ds where e: "fst (evaluate numpy_mod exp_term_fn 1 6 []) =
     Inr \<lparr>real_value = Fin (6121026514868073 / 2251799813685248),
           terms = [Fin 1, Fin 1, Fin (1 / 2), Fin (6004799503160661 / 36028797018963968),
                    Fin (6004799503160661 / 144115188075855872),
                    Fin (4803839602528529 / 576460752303423488)],
           result_to_r = [Fin 1, Fin 2, Fin (5 / 2), Fin (6004799503160661 / 2251799813685248),
                          Fin (3049312247698773 / 1125899906842624),
                          Fin (6117389493844923 / 2251799813685248)],
           differences = ds @ [Fin (- (1818510511575 / 1125899906842624))]\<rparr>"
      (is "_ = Inr ?s")
    and l: "length ds = 5"
    using exp_series_6 by auto
  have "\<bar>6121026514868073 / 2251799813685248 - exp (1::real)\<bar> \<le> 1 / 1000000000000000"
    using exp1_bounds by linarith
  then have n: "near (real_value ?s) (exp 1) 0.000000000000001"
    by (simp add: near_def)
  have t: "terms ?s = map (\<lambda>r. exp_term r 1) [0..<6]"
    by (simp add: range6 exp_term_values)
  have c: "result_to_r ?s ! 5 = Fin (6117389493844923 / 2251799813685248)"
    by simp
  have c1: "near (result_to_r ?s ! 5) 2.716666666667 0.0000000000005"
    and c2: "near (result_to_r ?s ! 5) (1 + 1 + 1 / 2 + 1 / 6 + 1 / 24 + 1 / 120)
               0.000000000000001"
    by (simp_all add: near_def)
  have r: "real_value ?s = fexp (Fin 1)"
    by (simp add: fexp_1 del: fexp.simps)
  have d: "differences ?s ! 5 = Fin (- (1818510511575 / 1125899906842624))"
    using l by (simp add: nth_append)
  have d1: "differences ?s ! 5 = fsub (result_to_r ?s ! 5) (real_value ?s)"
    using l by (simp add: nth_append exp_diff)
  have d2: "near (differences ?s ! 5) (- 0.001615) 0.0000005"
    unfolding d by (simp add: near_def)
  show ?thesis
    using e t c c1 c2 r n d1 d d2 by (intro exI [of _ ?s] conjI)
qed

text \<open>
  Claim C10, as the specification states it: whenever \<open>y = 0\<close> the first component
  of the result is \<open>0\<close>. With the finite floats \<open>z = 2\<^sup>1\<^sup>0\<^sup>2\<^sup>3\<close> and \<open>beta = -2\<^sup>1\<^sup>0\<^sup>2\<^sup>3\<close> the
  difference \<open>z - beta\<close> overflows to infinity, and infinity times zero is NaN.
\<close>

theorem zero_population_counterexample:
  "population_derivatives [Fin 0, Fin (2 ^ 1023)] (0::real) (Fin (- (2 ^ 1023)))
     = Inr [NaN, Fin (2 ^ 1023)]"
proof -
  have "(2::real) ^ 1023 + 2 ^ 1023 = 2 ^ 1024" by simp
  then have "fsub (Fin (2 ^ 1023)) (Fin (- (2 ^ 1023))) = PInf"
    by (simp only: fsub_def fneg.simps fadd.simps minus_minus f64_round_overflow)
  then have y: "fmul (fsub (Fin (2 ^ 1023)) (Fin (- (2 ^ 1023)))) (Fin 0) = NaN"
    by simp
  have z: "fmul (fsub (Fin 1) (Fin 0)) (Fin (2 ^ 1023)) = Fin (2 ^ 1023)"
    by (simp only: fsub_one_zero fmul.simps mult_1 f64_round_big)
  show ?thesis
    by (simp only: population_derivatives_pair y z)
qed

text \<open>
  Claim C10, amended: for every \<open>y\<close>, \<open>z\<close>, \<open>t\<close> and \<open>beta\<close> the function returns exactly
  the pair \<open>[(z - beta) * y, (1 - y) * z]\<close> in binary64 arithmetic, whatever \<open>t\<close> is;
  whenever \<open>y = 0\<close> and the float difference \<open>z - beta\<close> is finite the first component
  is \<open>0\<close>, and whenever \<open>z = 0\<close> and the float difference \<open>1 - y\<close> is finite the second
  component is \<open>0\<close>.
\<close>

theorem population_derivatives_value:
  assumes "fsub z0 beta0 = Fin d" and "fsub (Fin 1) y0 = Fin d'"
  shows "population_derivatives [y, z] t beta =
           Inr [fmul (fsub z beta) y, fmul (fsub (Fin 1) y) z]
       \<and> population_derivatives [y, z] t' beta = population_derivatives [y, z] t beta
       \<and> population_derivatives [Fin 0, z0] t beta0 = Inr [Fin 0, fmul (Fin 1) z0]
       \<and> population_derivatives [y0, Fin 0] t beta = Inr [fmul (fsub (Fin 0) beta) y0, Fin 0]"
  using assms by (simp add: population_derivatives_pair fmul_zero fsub_one_zero del: fmul.simps)

theorem population_derivatives_value_witness:
  "fsub (Fin (1 / 2)) (Fin (1 / 4)) = Fin (1 / 4)
   \<and> fsub (Fin 1) (Fin (1 / 2)) = Fin (1 / 2)
   \<and> population_derivatives [Fin 0, Fin (1 / 2)] (0::real) (Fin (1 / 4)) = Inr [Fin 0, Fin (1 / 2)]
   \<and> population_derivatives [Fin (1 / 2), Fin 0] (0::real) (Fin (1 / 4))
       = Inr [Fin (- (1 / 8)), Fin 0]"
proof -
  have a: "fsub (Fin (1 / 2)) (Fin (1 / 4)) = Fin (1 / 4)"
    using f64_round_at [of "- 2" "1 / 2 - 1 / 4"] by (simp add: fsub_def rnd)
  have b: "fsub (Fin 1) (Fin (1 / 2)) = Fin (1 / 2)"
    using f64_round_at [of "- 1" "1 - 1 / 2"] by (simp add: fsub_def rnd)
  have c: "fmul (Fin 1) (Fin (1 / 2)) = Fin (1 / 2)"
    by (simp add: round_quotients)
  have d: "fsub (Fin 0) (Fin (1 / 4)) = Fin (- (1 / 4))"
    using f64_round_at [of "- 2" "- (1 / 4)"] by (simp add: fsub_def rnd)
  have e: "fmul (Fin (- (1 / 4))) (Fin (1 / 2)) = Fin (- (1 / 8))"
    using f64_round_at [of "- 3" "- (1 / 4) * (1 / 2)"] by (simp add: rnd)
  show ?thesis
    using population_derivatives_value [OF a b, where y = "Fin (1 / 2)" and z = "Fin 0"
        and t = "0::real" and t' = "0::real" and beta = "Fin (1 / 4)"]
    by (simp add: a b c d e fmul_zero del: fmul.simps fadd.simps)
qed

end
